theory Spec2Isabelle
  imports Complex_Main
begin

section \<open>The performance monitor (performanceMonitor.ts)\<close>

text \<open>
  A shallow embedding of the class \<open>EnhancedPerformanceMonitor\<close>. JavaScript numbers
  that hold measured durations are modelled as \<open>real\<close> (exact arithmetic, no NaN);
  \<open>Date.now()\<close> is an \<open>int\<close> of milliseconds; heap sizes
  (\<open>performance.memory.usedJSHeapSize\<close>, a byte count) are \<open>nat\<close>; an optional field
  or an \<open>undefined\<close> value is \<open>None\<close>. What a method reads from its environment
  (the clock, the heap size, the stack of a fresh \<open>Error\<close>) is a parameter.
  The \<open>console.warn\<close> calls change no field of the monitor and are left out, and so
  is \<open>measureRender\<close>, which times a render and hands the result to \<open>logRender\<close>.

  Field names are global in a theory, so three fields of the source are renamed:
  the \<open>sessionId\<close> of a metric is \<open>metricSessionId\<close>, the \<open>timestamp\<close> of a memory
  reading is \<open>readingTimestamp\<close>, and the \<open>count\<close> of a hotspot is \<open>hotspotCount\<close>.
\<close>

subsection \<open>Data\<close>

record PerformanceMetrics =
  renderTime :: real
  componentName :: string
  propsHash :: string
  timestamp :: int
  metricSessionId :: string
  memoryUsage :: "nat option"
  callStack :: "string option"
  isSlowRender :: bool

record MemoryReading =
  readingTimestamp :: int
  usage :: nat

datatype MemoryTrend = stable | increasing | decreasing

record Hotspot =
  component :: string
  averageTime :: real
  hotspotCount :: nat

record PerformanceInsights =
  slowRenders :: "PerformanceMetrics list"
  averageRenderTime :: real
  totalRenders :: nat
  memoryTrend :: MemoryTrend
  componentHotspots :: "Hotspot list"
  recommendations :: "string list"

record EnhancedPerformanceMonitor =
  metrics :: "PerformanceMetrics list"
  sessionId :: string
  memoryBaseline :: "nat option"
  memoryHistory :: "MemoryReading list"

definition maxMetrics :: nat where
  "maxMetrics = 500"

definition slowRenderThreshold :: real where
  "slowRenderThreshold = 16"

text \<open>The constructor; the session id comes from \<open>generateSessionId\<close> (clock and
  random generator), so it is a parameter.\<close>

definition newMonitor :: "string \<Rightarrow> EnhancedPerformanceMonitor" where
  "newMonitor sid =
     \<lparr>metrics = [], sessionId = sid, memoryBaseline = None, memoryHistory = []\<rparr>"

subsection \<open>Array and string helpers of the runtime\<close>

text \<open>\<open>xs.slice(-k)\<close> for a constant \<open>k\<close>: the last \<open>k\<close> elements, all of them when the
  array is shorter; \<open>-0\<close> is \<open>0\<close>, so \<open>slice(-0)\<close> is the whole array.\<close>

definition sliceLast :: "nat \<Rightarrow> 'a list \<Rightarrow> 'a list" where
  "sliceLast k xs = (if k = 0 then xs else drop (length xs - k) xs)"

text \<open>\<open>s.split(sep)\<close> and \<open>lines.join(sep)\<close> for a one-character separator.\<close>

fun splitOn :: "char \<Rightarrow> string \<Rightarrow> string list" where
  "splitOn sep [] = [[]]"
| "splitOn sep (c # cs) =
     (if c = sep then [] # splitOn sep cs
      else (case splitOn sep cs of
              [] \<Rightarrow> [[c]]
            | l # ls \<Rightarrow> (c # l) # ls))"

fun joinWith :: "char \<Rightarrow> string list \<Rightarrow> string" where
  "joinWith sep [] = []"
| "joinWith sep [l] = l"
| "joinWith sep (l # ls) = l @ sep # joinWith sep ls"

definition newline :: char where
  "newline = CHR 0x0A"

text \<open>\<open>getCallStack\<close>: the argument is \<open>new Error().stack\<close>; an absent or empty stack
  gives the empty string, otherwise lines 4 to 7 are kept.\<close>

definition getCallStack :: "string option \<Rightarrow> string" where
  "getCallStack stack =
     (case stack of
        None \<Rightarrow> []
      | Some s \<Rightarrow>
          if s = [] then []
          else (let lines = splitOn newline s;
                    relevantLines = take 4 (drop 4 lines)
                in joinWith newline relevantLines))"

subsection \<open>logRender\<close>

text \<open>What one call of \<open>logRender\<close> reads from outside: \<open>Date.now()\<close>, the heap size when
  the host exposes \<open>performance.memory\<close>, and the stack of a fresh \<open>Error\<close>.\<close>

record Env =
  now :: int
  usedJSHeapSize :: "nat option"
  errorStack :: "string option"

definition logRender ::
  "Env \<Rightarrow> string \<Rightarrow> real \<Rightarrow> string \<Rightarrow> EnhancedPerformanceMonitor \<Rightarrow> EnhancedPerformanceMonitor"
where
  "logRender env name time hash this =
     (let slow = (time > slowRenderThreshold);
          metric = \<lparr>renderTime = time,
                    componentName = name,
                    propsHash = hash,
                    timestamp = now env,
                    metricSessionId = sessionId this,
                    memoryUsage = usedJSHeapSize env,
                    callStack = (if slow then Some (getCallStack (errorStack env)) else None),
                    isSlowRender = slow\<rparr>;
          pushed = metrics this @ [metric]
      in if length pushed > maxMetrics
         then (let slowOnes = filter isSlowRender pushed;
                   recentMetrics = sliceLast (nat \<lfloor>real maxMetrics * 0.7\<rfloor>) pushed
               in this\<lparr>metrics :=
                    sliceLast maxMetrics (sort_key timestamp (slowOnes @ recentMetrics))\<rparr>)
         else this\<lparr>metrics := pushed\<rparr>)"

text \<open>A sequence of \<open>logRender\<close> calls, each with its arguments and what it read from
  the environment.\<close>

record LogRenderCall =
  argComponentName :: string
  argRenderTime :: real
  argPropsHash :: string
  callEnv :: Env

definition logRenders ::
  "EnhancedPerformanceMonitor \<Rightarrow> LogRenderCall list \<Rightarrow> EnhancedPerformanceMonitor"
where
  "logRenders =
     foldl (\<lambda>this c. logRender (callEnv c) (argComponentName c) (argRenderTime c)
                         (argPropsHash c) this)"

subsection \<open>The memory sampler\<close>

text \<open>The callback that \<open>startMemoryMonitoring\<close> hands to \<open>setInterval\<close>, run once per
  tick with the heap size \<open>u\<close> and the clock \<open>t\<close> it reads. The test
  \<open>!this.memoryBaseline\<close> holds for \<open>undefined\<close> and for the number \<open>0\<close>.\<close>

definition falsy :: "nat option \<Rightarrow> bool" where
  "falsy v = (case v of None \<Rightarrow> True | Some n \<Rightarrow> n = 0)"

definition memoryTick :: "nat \<Rightarrow> int \<Rightarrow> EnhancedPerformanceMonitor \<Rightarrow> EnhancedPerformanceMonitor" where
  "memoryTick u t this =
     (let baseline = (if falsy (memoryBaseline this) then Some u else memoryBaseline this);
          pushed = memoryHistory this @ [\<lparr>readingTimestamp = t, usage = u\<rparr>];
          history = (if length pushed > 50 then sliceLast 50 pushed else pushed)
      in this\<lparr>memoryBaseline := baseline, memoryHistory := history\<rparr>)"

definition memoryTicks ::
  "EnhancedPerformanceMonitor \<Rightarrow> (nat \<times> int) list \<Rightarrow> EnhancedPerformanceMonitor"
where
  "memoryTicks = foldl (\<lambda>this r. memoryTick (fst r) (snd r) this)"

subsection \<open>Queries\<close>

definition getMetrics :: "EnhancedPerformanceMonitor \<Rightarrow> PerformanceMetrics list" where
  "getMetrics this = metrics this"

definition getComponentMetrics ::
  "string \<Rightarrow> EnhancedPerformanceMonitor \<Rightarrow> PerformanceMetrics list"
where
  "getComponentMetrics name this = filter (\<lambda>m. componentName m = name) (metrics this)"

subsection \<open>getInsights\<close>

text \<open>
  \<open>componentStats\<close> is a plain object used as a dictionary. Its own properties are kept
  here as an association list in creation order. Two rules of the language show in it:
  \<^item> \<open>acc[name]\<close> also finds what the object inherits from \<open>Object.prototype\<close>, and every
    such member is truthy; for such a name the guard \<open>!acc[name]\<close> fails, the two
    updates land on the inherited member, and \<open>acc\<close> gets no property of its own;
  \<^item> \<open>Object.entries\<close> lists the keys that are array indices (canonical decimal
    numerals up to \<open>2^32 - 2\<close>) first, in ascending numeric order, and the other keys
    after them in creation order.
\<close>

record ComponentStat =
  total :: real
  count :: nat

definition inheritedKeys :: "string list" where
  "inheritedKeys =
     [''constructor'', ''__defineGetter__'', ''__defineSetter__'', ''hasOwnProperty'',
      ''__lookupGetter__'', ''__lookupSetter__'', ''isPrototypeOf'',
      ''propertyIsEnumerable'', ''toString'', ''valueOf'', ''__proto__'',
      ''toLocaleString'']"

definition decimalValue :: "string \<Rightarrow> nat" where
  "decimalValue s = foldl (\<lambda>n c. 10 * n + (of_char c - 48)) 0 s"

definition isArrayIndex :: "string \<Rightarrow> bool" where
  "isArrayIndex s =
     (case s of
        [] \<Rightarrow> False
      | c # cs \<Rightarrow>
          list_all (\<lambda>d. d \<in> set ''0123456789'') s \<and>
          (if c = CHR ''0'' then cs = [] else True) \<and>
          decimalValue s \<le> 4294967294)"

definition objectEntries :: "(string \<times> 'a) list \<Rightarrow> (string \<times> 'a) list" where
  "objectEntries obj =
     sort_key (\<lambda>kv. decimalValue (fst kv)) (filter (\<lambda>kv. isArrayIndex (fst kv)) obj)
     @ filter (\<lambda>kv. \<not> isArrayIndex (fst kv)) obj"

text \<open>One step of the \<open>reduce\<close> that builds \<open>componentStats\<close>.\<close>

definition statsStep ::
  "(string \<times> ComponentStat) list \<Rightarrow> PerformanceMetrics \<Rightarrow> (string \<times> ComponentStat) list"
where
  "statsStep acc metric =
     (let name = componentName metric
      in if name \<in> set inheritedKeys then acc
         else (let acc1 = (if map_of acc name = None
                           then acc @ [(name, \<lparr>total = 0, count = 0\<rparr>)]
                           else acc)
               in map (\<lambda>kv. if fst kv = name
                             then (fst kv, (snd kv)\<lparr>total := total (snd kv) + renderTime metric,
                                                    count := count (snd kv) + 1\<rparr>)
                             else kv) acc1))"

text \<open>\<open>xs.slice(-a, -b)\<close> for constants \<open>a\<close>, \<open>b\<close> above 0: from index \<open>max (n - a) 0\<close>
  up to, not including, index \<open>max (n - b) 0\<close>.\<close>

definition sliceBetween :: "nat \<Rightarrow> nat \<Rightarrow> 'a list \<Rightarrow> 'a list" where
  "sliceBetween a b xs =
     (let n = length xs; start = n - a; stop = n - b
      in take (stop - start) (drop start xs))"

definition memoRecommendation :: string where
  "memoRecommendation = ''Consider optimizing components with React.memo() or useMemo()''"

definition focusRecommendation :: "string \<Rightarrow> string" where
  "focusRecommendation c = ''Focus optimization on '' @ c @ '' component''"

definition leakRecommendation :: string where
  "leakRecommendation = ''Memory usage is increasing - check for memory leaks''"

definition overallRecommendation :: string where
  "overallRecommendation = ''Overall render performance could be improved''"

definition getInsights :: "EnhancedPerformanceMonitor \<Rightarrow> PerformanceInsights" where
  "getInsights this =
     (let slowOnes = filter isSlowRender (metrics this);
          totalCount = length (metrics this);
          average = (if totalCount > 0
                     then foldl (\<lambda>sum m. sum + renderTime m) 0 (metrics this) / real totalCount
                     else 0);
          componentStats = foldl statsStep [] (metrics this);
          hotspots =
            take 5
              (sort_key (\<lambda>h. - averageTime h)
                 (map (\<lambda>kv. \<lparr>component = fst kv,
                              averageTime = total (snd kv) / real (count (snd kv)),
                              hotspotCount = count (snd kv)\<rparr>)
                    (objectEntries componentStats)));
          trend =
            (if length (memoryHistory this) \<ge> 10
             then (let recent = sliceLast 5 (memoryHistory this);
                       older = sliceBetween 10 5 (memoryHistory this);
                       recentAvg = foldl (\<lambda>sum m. sum + real (usage m)) 0 recent
                                     / real (length recent);
                       olderAvg = foldl (\<lambda>sum m. sum + real (usage m)) 0 older
                                    / real (length older)
                   in if recentAvg > olderAvg * 1.1 then increasing
                      else if recentAvg < olderAvg * 0.9 then decreasing
                      else stable)
             else stable);
          recs0 = [];
          recs1 = (if real (length slowOnes) > real totalCount * 0.1
                   then recs0 @ [memoRecommendation] else recs0);
          recs2 = (if length hotspots > 0 \<and> averageTime (hotspots ! 0) > 20
                   then recs1 @ [focusRecommendation (component (hotspots ! 0))] else recs1);
          recs3 = (if trend = increasing then recs2 @ [leakRecommendation] else recs2);
          recs4 = (if average > 10 then recs3 @ [overallRecommendation] else recs3)
      in \<lparr>slowRenders = slowOnes,
          averageRenderTime = average,
          totalRenders = totalCount,
          memoryTrend = trend,
          componentHotspots = hotspots,
          recommendations = recs4\<rparr>)"

subsection \<open>clear\<close>

definition clear :: "EnhancedPerformanceMonitor \<Rightarrow> EnhancedPerformanceMonitor" where
  "clear this = this\<lparr>metrics := [], memoryHistory := [], memoryBaseline := None\<rparr>"

subsection \<open>optimizeMemory\<close>

text \<open>The argument \<open>t\<close> is \<open>Date.now()\<close>, which the model reads once for the whole
  \<open>filter\<close>.\<close>

definition optimizeMemory :: "int \<Rightarrow> EnhancedPerformanceMonitor \<Rightarrow> EnhancedPerformanceMonitor" where
  "optimizeMemory t this =
     (let criticalMetrics =
            filter (\<lambda>m. isSlowRender m \<or> t - timestamp m < 300000) (metrics this)
      in this\<lparr>metrics := sliceLast 200 criticalMetrics,
              memoryHistory := sliceLast 20 (memoryHistory this)\<rparr>)"

subsection \<open>exportMetrics\<close>

text \<open>
  \<open>exportMetrics\<close> hands an object to \<open>JSON.stringify\<close>. The model builds the JSON value
  that \<open>JSON.stringify\<close> writes out: object keys in property order, a property whose
  value is \<open>undefined\<close> left out. The text layer of the runtime (indentation, number
  syntax, string escapes) is not modelled: \<open>JSON.parse\<close> reads the written text back to
  this value. The argument \<open>exportTime\<close> is \<open>new Date().toISOString()\<close>.
\<close>

datatype json =
  JNull
| JBool bool
| JNumber real
| JString string
| JArray "json list"
| JObject "(string \<times> json) list"











section \<open>Definitions used to state the properties\<close>

subsection \<open>The metric that logRender builds\<close>

text \<open>
  The object literal of \<open>logRender\<close>, as a function of the call and of the session id
  of the monitor.
\<close>

definition recorded :: "string \<Rightarrow> LogRenderCall \<Rightarrow> PerformanceMetrics" where
  "recorded sid c =
     \<lparr>renderTime = argRenderTime c, componentName = argComponentName c,
      propsHash = argPropsHash c, timestamp = now (callEnv c), metricSessionId = sid,
      memoryUsage = usedJSHeapSize (callEnv c),
      callStack = (if argRenderTime c > slowRenderThreshold
                   then Some (getCallStack (errorStack (callEnv c))) else None),
      isSlowRender = (argRenderTime c > slowRenderThreshold)\<rparr>"

subsection \<open>What the specification says, in its own words\<close>





text \<open>
  Hotspots as the specification describes them: the subjects in the order of their
  first occurrence in the store, each with the mean duration and the number of its
  samples, sorted by descending mean with a stable sort (ties stay in first-occurrence
  order), the first five kept.
\<close>

fun firstOccurrences :: "'a list \<Rightarrow> 'a list" where
  "firstOccurrences [] = []"
| "firstOccurrences (x # xs) = x # filter (\<lambda>y. y \<noteq> x) (firstOccurrences xs)"






text \<open>
  The cleanup branch of \<open>logRender\<close>, as a function of the array after the push.
\<close>

definition cleanup :: "PerformanceMetrics list \<Rightarrow> PerformanceMetrics list" where
  "cleanup pushed =
     (let slowOnes = filter isSlowRender pushed;
          recentMetrics = sliceLast (nat \<lfloor>real maxMetrics * 0.7\<rfloor>) pushed
      in sliceLast maxMetrics (sort_key timestamp (slowOnes @ recentMetrics)))"

text \<open>
  The eviction policy as the specification words it: the anomalous samples together
  with the 350 most recent samples by timestamp, duplicates removed, sorted by
  timestamp, the most recent \<open>maxMetrics\<close> kept.
\<close>

definition retainedBySpec :: "PerformanceMetrics list \<Rightarrow> PerformanceMetrics list" where
  "retainedBySpec samples =
     (let anomalous = filter isSlowRender samples;
          mostRecent = sliceLast (nat \<lfloor>0.7 * real maxMetrics\<rfloor>) (sort_key timestamp samples);
          deduplicated = remdups (anomalous @ mostRecent)
      in sliceLast maxMetrics (sort_key timestamp deduplicated))"

subsection \<open>Concrete runs\<close>

text \<open>
  A call of \<open>logRender\<close> on a host without \<open>performance.memory\<close> and without a
  stack, and a monitor after a run of memory-sampler ticks, ten seconds apart.
\<close>

definition render :: "string \<Rightarrow> real \<Rightarrow> int \<Rightarrow> LogRenderCall" where
  "render name time t =
     \<lparr>argComponentName = name, argRenderTime = time, argPropsHash = ''{}'',
      callEnv = \<lparr>now = t, usedJSHeapSize = None, errorStack = None\<rparr>\<rparr>"






text \<open>
  A run that fills the store and then overflows it: 151 slow renders of Chart, then
  349 quick renders of List fill the store (\<open>filled\<close>), and one more quick render is the
  501st call (\<open>burst\<close>). The clock is a parameter: \<open>tied\<close> reads the same millisecond
  at every call, \<open>spaced\<close> advances by 20 ms per call.
\<close>

definition slowCall :: "(nat \<Rightarrow> int) \<Rightarrow> nat \<Rightarrow> LogRenderCall" where
  "slowCall clock i = render ''Chart'' (20 + real i) (clock i)"

definition quickCall :: "(nat \<Rightarrow> int) \<Rightarrow> nat \<Rightarrow> LogRenderCall" where
  "quickCall clock i = render ''List'' (real i / 100) (clock i)"

definition burst :: "(nat \<Rightarrow> int) \<Rightarrow> LogRenderCall list" where
  "burst clock = map (slowCall clock) [0..<151] @ map (quickCall clock) [151..<501]"

definition filled :: "(nat \<Rightarrow> int) \<Rightarrow> EnhancedPerformanceMonitor" where
  "filled clock =
     logRenders (newMonitor ''perf_0_abc'')
       (map (slowCall clock) [0..<151] @ map (quickCall clock) [151..<500])"

definition tied :: "nat \<Rightarrow> int" where
  "tied i = 1000"

definition spaced :: "nat \<Rightarrow> int" where
  "spaced i = 1000 + 20 * int i"

text \<open>
  Five hundred quick renders of List, one per millisecond, then one slow render of
  Chart.
\<close>

definition steady :: "LogRenderCall list" where
  "steady = map (\<lambda>i. render ''List'' 4 (int i)) [0..<500] @ [render ''Chart'' 40 500]"

section \<open>Properties\<close>

subsection \<open>Helper lemmas on the runtime functions\<close>

lemma length_sliceLast: "0 < k \<Longrightarrow> length (sliceLast k xs) = min k (length xs)"
  by (simp add: sliceLast_def)

lemma length_metrics_logRender:
  "length (metrics (logRender env name time hash this)) \<le> maxMetrics"
  by (simp add: logRender_def Let_def length_sliceLast maxMetrics_def)

lemma logRenders_snoc:
  "logRenders this (cs @ [c]) =
     logRender (callEnv c) (argComponentName c) (argRenderTime c) (argPropsHash c)
       (logRenders this cs)"
  by (simp add: logRenders_def)


subsection \<open>The fields of getInsights\<close>





subsection \<open>Ten memory readings\<close>



subsection \<open>The recommendation rules\<close>


subsection \<open>Runs of logRender below capacity\<close>

lemma metrics_logRender_below:
  "length (metrics this) < maxMetrics \<Longrightarrow>
   metrics (logRender env name time hash this) =
     metrics this @
       [\<lparr>renderTime = time, componentName = name, propsHash = hash, timestamp = now env,
         metricSessionId = sessionId this, memoryUsage = usedJSHeapSize env,
         callStack = (if time > slowRenderThreshold then Some (getCallStack (errorStack env))
                      else None),
         isSlowRender = (time > slowRenderThreshold)\<rparr>]"
  by (simp add: logRender_def Let_def)

lemma sessionId_logRender [simp]: "sessionId (logRender env name time hash this) = sessionId this"
  by (simp add: logRender_def Let_def)

lemma memoryHistory_logRender [simp]:
  "memoryHistory (logRender env name time hash this) = memoryHistory this"
  by (simp add: logRender_def Let_def)

lemma memoryBaseline_logRender [simp]:
  "memoryBaseline (logRender env name time hash this) = memoryBaseline this"
  by (simp add: logRender_def Let_def)

lemma sessionId_logRenders [simp]: "sessionId (logRenders this cs) = sessionId this"
  by (induction cs rule: rev_induct) (simp_all add: logRenders_def)

lemma memoryHistory_logRenders [simp]:
  "memoryHistory (logRenders this cs) = memoryHistory this"
  by (induction cs rule: rev_induct) (simp_all add: logRenders_def)

lemma metrics_logRenders_below:
  "length (metrics this) + length cs \<le> maxMetrics \<Longrightarrow>
   metrics (logRenders this cs) = metrics this @ map (recorded (sessionId this)) cs"
proof (induction cs rule: rev_induct)
  case Nil
  then show ?case by (simp add: logRenders_def)
next
  case (snoc c cs)
  then have "length (metrics (logRenders this cs)) < maxMetrics" by simp
  then show ?case
    using snoc by (simp add: logRenders_snoc metrics_logRender_below recorded_def)
qed

subsection \<open>The memory sampler leaves the store alone\<close>

lemma metrics_memoryTick [simp]: "metrics (memoryTick u t this) = metrics this"
  by (simp add: memoryTick_def Let_def)

lemma sessionId_memoryTick [simp]: "sessionId (memoryTick u t this) = sessionId this"
  by (simp add: memoryTick_def Let_def)

lemma metrics_memoryTicks [simp]: "metrics (memoryTicks this rs) = metrics this"
  by (induction rs rule: rev_induct) (simp_all add: memoryTicks_def)

lemma sessionId_memoryTicks [simp]: "sessionId (memoryTicks this rs) = sessionId this"
  by (induction rs rule: rev_induct) (simp_all add: memoryTicks_def)

subsection \<open>The run with twenty renders\<close>



lemma totalRenders_getInsights: "totalRenders (getInsights this) = length (metrics this)"
  by (simp add: getInsights_def Let_def)








subsection \<open>The memory baseline\<close>

lemma memoryBaseline_memoryTick:
  "memoryBaseline (memoryTick u t this) =
     (if falsy (memoryBaseline this) then Some u else memoryBaseline this)"
  by (simp add: memoryTick_def Let_def)

lemma memoryBaseline_kept:
  "memoryBaseline this = Some b \<Longrightarrow> b \<noteq> 0 \<Longrightarrow> memoryBaseline (memoryTicks this rs) = Some b"
  by (induction rs rule: rev_induct)
     (simp_all add: memoryTicks_def memoryBaseline_memoryTick falsy_def)

subsection \<open>componentStats on ordinary names\<close>

lemma set_firstOccurrences [simp]: "set (firstOccurrences xs) = set xs"
  by (induction xs) auto








subsection \<open>The runs with three, two and one component\<close>






lemma cleanup_350:
  "cleanup pushed =
     sliceLast maxMetrics
       (sort_key timestamp (filter isSlowRender pushed @ sliceLast 350 pushed))"
  by (simp add: cleanup_def Let_def maxMetrics_def)

subsection \<open>The cleanup branch\<close>

lemma metrics_logRender_full:
  "maxMetrics \<le> length (metrics this) \<Longrightarrow>
   metrics (logRender (callEnv c) (argComponentName c) (argRenderTime c) (argPropsHash c) this) =
     cleanup (metrics this @ [recorded (sessionId this) c])"
  by (simp add: logRender_def Let_def cleanup_def recorded_def)

lemma sorted_drop_oldest:
  assumes "sorted (map f xs)" and "a \<in> set xs" and "a \<notin> set (drop k xs)"
    and "x \<in> set (drop k xs)"
  shows "f a \<le> f x"
proof -
  have "set xs = set (take k xs) \<union> set (drop k xs)"
    by (metis append_take_drop_id set_append)
  with assms(2,3) have a: "a \<in> set (take k xs)" by blast
  have "sorted (map f (take k xs) @ map f (drop k xs))"
    using assms(1) by (metis append_take_drop_id map_append)
  then have "\<forall>u \<in> set (map f (take k xs)). \<forall>v \<in> set (map f (drop k xs)). u \<le> v"
    by (simp add: sorted_append)
  with a assms(4) show ?thesis by simp
qed

lemma cleanup_discards_oldest:
  assumes "isSlowRender a" and "a \<in> set pushed" and "a \<notin> set (cleanup pushed)"
    and "x \<in> set (cleanup pushed)"
  shows "timestamp a \<le> timestamp x"
proof -
  let ?kept = "filter isSlowRender pushed @ sliceLast 350 pushed"
  let ?k = "length (sort_key timestamp ?kept) - maxMetrics"
  have drop: "cleanup pushed = drop ?k (sort_key timestamp ?kept)"
    by (simp add: cleanup_350 sliceLast_def maxMetrics_def)
  have member: "a \<in> set (sort_key timestamp ?kept)"
    using assms(1,2) by simp
  have sorted: "sorted (map timestamp (sort_key timestamp ?kept))"
    by (rule sorted_sort_key)
  show ?thesis
    using sorted_drop_oldest [OF sorted member] assms(3,4) unfolding drop by blast
qed

subsection \<open>The run that overflows the store\<close>

lemma metrics_logRenders_full:
  assumes "length calls = Suc maxMetrics"
  shows "metrics (logRenders (newMonitor sid) calls) = cleanup (map (recorded sid) calls)"
proof -
  from assms have "calls \<noteq> []" by auto
  then obtain cs c where calls: "calls = cs @ [c]"
    by (meson rev_exhaust)
  with assms have len: "length cs = maxMetrics" by simp
  have sid: "sessionId (newMonitor sid) = sid" and empty: "metrics (newMonitor sid) = []"
    by (simp_all add: newMonitor_def)
  have before: "metrics (logRenders (newMonitor sid) cs) = map (recorded sid) cs"
    using metrics_logRenders_below [of "newMonitor sid" cs] len by (simp add: sid empty)
  then have "maxMetrics \<le> length (metrics (logRenders (newMonitor sid) cs))"
    using len by simp
  then show ?thesis
    by (simp add: calls logRenders_snoc metrics_logRender_full before sid)
qed

lemma cleanup_oldest_slow:
  assumes "isSlowRender a" and "\<forall>y \<in> set As. isSlowRender y"
    and "\<forall>y \<in> set Bs. \<not> isSlowRender y"
    and "length As = 150" and "length Bs = 350"
    and "\<forall>y \<in> set (As @ Bs). timestamp a \<le> timestamp y"
  shows "cleanup (a # As @ Bs) = sort_key timestamp (As @ Bs)"
proof -
  have slow: "filter isSlowRender (a # As @ Bs) = a # As"
    using assms(1-3) by (simp add: filter_id_conv filter_empty_conv)
  have recent: "sliceLast 350 (a # As @ Bs) = Bs"
    using assms(4,5) by (simp add: sliceLast_def)
  have "\<forall>y \<in> set (sort_key timestamp (As @ Bs)). timestamp a \<le> timestamp y"
    using assms(6) by simp
  then have sorted: "sort_key timestamp (a # As @ Bs) = a # sort_key timestamp (As @ Bs)"
    by (simp add: insort_is_Cons)
  have "length (sort_key timestamp (As @ Bs)) = 500"
    using assms(4,5) by simp
  then have "sliceLast maxMetrics (a # sort_key timestamp (As @ Bs)) = sort_key timestamp (As @ Bs)"
    by (simp add: sliceLast_def maxMetrics_def)
  then show ?thesis
    unfolding cleanup_350 slow recent using sorted by simp
qed

lemma burst_split:
  "map (recorded sid) (burst clock) =
     recorded sid (slowCall clock 0)
     # map (\<lambda>i. recorded sid (slowCall clock i)) [Suc 0..<151]
     @ map (\<lambda>i. recorded sid (quickCall clock i)) [151..<501]"
proof -
  have "[0..<151] = 0 # [Suc 0..<151]"
    by (rule upt_conv_Cons) simp
  then show ?thesis
    by (simp add: burst_def comp_def del: upt_rec_numeral)
qed

lemma isSlowRender_slowCall [simp]: "isSlowRender (recorded sid (slowCall clock i))"
  by (simp add: recorded_def slowCall_def render_def slowRenderThreshold_def)

lemma isSlowRender_quickCall [simp]:
  "i < 501 \<Longrightarrow> \<not> isSlowRender (recorded sid (quickCall clock i))"
  by (simp add: recorded_def quickCall_def render_def slowRenderThreshold_def)

lemma timestamp_slowCall [simp]: "timestamp (recorded sid (slowCall clock i)) = clock i"
  by (simp add: recorded_def slowCall_def render_def)

lemma timestamp_quickCall [simp]: "timestamp (recorded sid (quickCall clock i)) = clock i"
  by (simp add: recorded_def quickCall_def render_def)

lemma metrics_burst:
  assumes "\<forall>i < 501. clock 0 \<le> clock i"
  shows "metrics (logRenders (newMonitor sid) (burst clock)) =
     sort_key timestamp
       (map (\<lambda>i. recorded sid (slowCall clock i)) [Suc 0..<151]
        @ map (\<lambda>i. recorded sid (quickCall clock i)) [151..<501])"
proof -
  have "length (burst clock) = Suc maxMetrics"
    by (simp add: burst_def maxMetrics_def del: upt_rec_numeral)
  then have "metrics (logRenders (newMonitor sid) (burst clock)) =
      cleanup (map (recorded sid) (burst clock))"
    by (rule metrics_logRenders_full)
  also have "\<dots> = sort_key timestamp
       (map (\<lambda>i. recorded sid (slowCall clock i)) [Suc 0..<151]
        @ map (\<lambda>i. recorded sid (quickCall clock i)) [151..<501])"
    unfolding burst_split
    using assms by (intro cleanup_oldest_slow) (auto simp del: upt_rec_numeral)
  finally show ?thesis .
qed

lemma burst_filled:
  "burst clock =
     (map (slowCall clock) [0..<151] @ map (quickCall clock) [151..<500]) @ [quickCall clock 500]"
proof -
  have "[151..<Suc 500] = [151..<500] @ [500]"
    by (rule upt_Suc_append) simp
  moreover have "(501::nat) = Suc 500" by simp
  ultimately have "[151..<501] = [151..<500] @ [500]" by metis
  then show ?thesis
    by (simp add: burst_def del: upt_rec_numeral)
qed

lemma logRender_filled:
  "logRender (callEnv (quickCall clock 500)) (argComponentName (quickCall clock 500))
       (argRenderTime (quickCall clock 500)) (argPropsHash (quickCall clock 500)) (filled clock) =
     logRenders (newMonitor ''perf_0_abc'') (burst clock)"
  unfolding burst_filled filled_def by (rule logRenders_snoc [symmetric])

lemma sessionId_filled: "sessionId (filled clock) = ''perf_0_abc''"
  by (simp add: filled_def newMonitor_def)

lemma metrics_filled:
  "metrics (filled clock) =
     map (\<lambda>i. recorded ''perf_0_abc'' (slowCall clock i)) [0..<151]
     @ map (\<lambda>i. recorded ''perf_0_abc'' (quickCall clock i)) [151..<500]"
  unfolding filled_def
  by (subst metrics_logRenders_below)
     (simp_all add: newMonitor_def maxMetrics_def comp_def del: upt_rec_numeral)

lemma filled_counts:
  "length (metrics (filled clock)) = 500 \<and>
   length (filter isSlowRender (metrics (filled clock))) = 151"
proof -
  have "filter isSlowRender (map (\<lambda>i. recorded ''perf_0_abc'' (slowCall clock i)) [0..<151]) =
      map (\<lambda>i. recorded ''perf_0_abc'' (slowCall clock i)) [0..<151]"
    by (simp add: filter_id_conv del: upt_rec_numeral)
  moreover have
    "filter isSlowRender (map (\<lambda>i. recorded ''perf_0_abc'' (quickCall clock i)) [151..<500]) = []"
    by (simp add: filter_empty_conv del: upt_rec_numeral)
  ultimately show ?thesis
    by (simp add: metrics_filled del: upt_rec_numeral)
qed

lemma oldest_slow_discarded:
  assumes "\<forall>i < 501. clock 0 \<le> clock i"
  shows "recorded ''perf_0_abc'' (slowCall clock 0)
           \<notin> set (metrics (logRenders (newMonitor ''perf_0_abc'') (burst clock)))"
  by (auto simp add: metrics_burst [OF assms] recorded_def slowCall_def quickCall_def render_def
      simp del: upt_rec_numeral)

lemma quick_survives:
  assumes "\<forall>i < 501. clock 0 \<le> clock i"
  shows "recorded ''perf_0_abc'' (quickCall clock 151)
           \<in> set (metrics (logRenders (newMonitor ''perf_0_abc'') (burst clock)))"
  by (simp add: metrics_burst [OF assms] del: upt_rec_numeral)

lemma oldest_slow_stored:
  "recorded ''perf_0_abc'' (slowCall clock 0) \<in> set (metrics (filled clock))"
  by (simp add: metrics_filled del: upt_rec_numeral)

subsection \<open>Duplicates\<close>

lemma distinct_sliceLast: "distinct xs \<Longrightarrow> distinct (sliceLast k xs)"
  by (simp add: sliceLast_def)

lemma distinct_retainedBySpec: "distinct (retainedBySpec samples)"
  by (simp add: retainedBySpec_def Let_def distinct_sliceLast)

lemma cleanup_one_slow:
  assumes "isSlowRender s" and "\<forall>y \<in> set Qs. \<not> isSlowRender y" and "length Qs = 500"
  shows "cleanup (Qs @ [s]) = sort_key timestamp (s # drop 151 Qs @ [s])"
proof -
  have slow: "filter isSlowRender (Qs @ [s]) = [s]"
    using assms(1,2) by (simp add: filter_empty_conv)
  have recent: "sliceLast 350 (Qs @ [s]) = drop 151 Qs @ [s]"
    using assms(3) by (simp add: sliceLast_def)
  have "length (sort_key timestamp (s # drop 151 Qs @ [s])) = 351"
    using assms(3) by simp
  then have "sliceLast maxMetrics (sort_key timestamp (s # drop 151 Qs @ [s])) =
      sort_key timestamp (s # drop 151 Qs @ [s])"
    by (simp add: sliceLast_def maxMetrics_def)
  then show ?thesis
    unfolding cleanup_350 slow recent by simp
qed

lemma metrics_steady:
  "metrics (logRenders (newMonitor ''perf_0_abc'') steady) =
     sort_key timestamp
       (recorded ''perf_0_abc'' (render ''Chart'' 40 500)
        # drop 151 (map (\<lambda>i. recorded ''perf_0_abc'' (render ''List'' 4 (int i))) [0..<500])
        @ [recorded ''perf_0_abc'' (render ''Chart'' 40 500)])"
proof -
  have "length steady = Suc maxMetrics"
    by (simp add: steady_def maxMetrics_def)
  then have "metrics (logRenders (newMonitor ''perf_0_abc'') steady) =
      cleanup (map (recorded ''perf_0_abc'') steady)"
    by (rule metrics_logRenders_full)
  also have "map (recorded ''perf_0_abc'') steady =
      map (\<lambda>i. recorded ''perf_0_abc'' (render ''List'' 4 (int i))) [0..<500]
      @ [recorded ''perf_0_abc'' (render ''Chart'' 40 500)]"
    by (simp add: steady_def comp_def)
  also have "cleanup \<dots> =
     sort_key timestamp
       (recorded ''perf_0_abc'' (render ''Chart'' 40 500)
        # drop 151 (map (\<lambda>i. recorded ''perf_0_abc'' (render ''List'' 4 (int i))) [0..<500])
        @ [recorded ''perf_0_abc'' (render ''Chart'' 40 500)])"
    by (rule cleanup_one_slow)
       (simp_all add: recorded_def render_def slowRenderThreshold_def)
  finally show ?thesis .
qed

lemma optimizeMemory_distinct:
  "distinct (metrics this) \<Longrightarrow> distinct (metrics (optimizeMemory t this))"
  by (simp add: optimizeMemory_def Let_def distinct_sliceLast)

section \<open>Claims\<close>

subsection \<open>C1: capacity\<close>

text \<open>
  C1 (capacity invariant). Start from a new monitor, whose store is empty, and make any
  sequence of \<open>logRender\<close> calls: after each call of the sequence, that is after its
  first \<open>n\<close> calls for every \<open>n\<close>, the store holds at most \<open>maxMetrics\<close> = 500 metrics.
\<close>

theorem capacity_invariant:
  "length (metrics (logRenders (newMonitor sid) (take n calls))) \<le> maxMetrics \<and>
   maxMetrics = 500"
proof -
  define cs where "cs = take n calls"
  have "length (metrics (logRenders (newMonitor sid) cs)) \<le> maxMetrics"
  proof (cases cs rule: rev_cases)
    case Nil
    then show ?thesis by (simp add: logRenders_def newMonitor_def)
  next
    case (snoc cs' c)
    then show ?thesis
      using length_metrics_logRender by (simp add: logRenders_snoc)
  qed
  then show ?thesis
    by (simp add: cs_def maxMetrics_def)
qed

subsection \<open>C2: eviction policy\<close>

text \<open>
  C2 (eviction policy). The claim asks that no sample appears twice after an eviction.
  On the run \<open>steady\<close> the 501st call triggers the cleanup; the slow render it records
  is in both groups that the cleanup concatenates, the slow renders and the last 350
  metrics, so the store afterwards holds it twice: 351 entries, where the eviction
  policy of the specification keeps each sample once. The other cleanup of the class,
  \<open>optimizeMemory\<close>, keeps the slow or recent metrics with one \<open>filter\<close> and cannot
  duplicate.
\<close>

theorem eviction_duplicates_sample:
  "length (metrics (logRenders (newMonitor ''perf_0_abc'') steady)) = 351 \<and>
   length (filter (\<lambda>m. m = recorded ''perf_0_abc'' (render ''Chart'' 40 500))
             (metrics (logRenders (newMonitor ''perf_0_abc'') steady))) = 2 \<and>
   distinct (retainedBySpec (map (recorded ''perf_0_abc'') steady)) \<and>
   metrics (logRenders (newMonitor ''perf_0_abc'') steady)
     \<noteq> retainedBySpec (map (recorded ''perf_0_abc'') steady)"
proof -
  let ?s = "recorded ''perf_0_abc'' (render ''Chart'' 40 500)"
  let ?after = "metrics (logRenders (newMonitor ''perf_0_abc'') steady)"
  have len: "length ?after = 351"
    by (simp add: metrics_steady)
  have "filter (\<lambda>m. m = ?s)
          (drop 151 (map (\<lambda>i. recorded ''perf_0_abc'' (render ''List'' 4 (int i))) [0..<500])) = []"
    by (auto simp: filter_empty_conv recorded_def render_def dest!: in_set_dropD)
  then have "filter (\<lambda>m. m = ?s)
      (?s # drop 151 (map (\<lambda>i. recorded ''perf_0_abc'' (render ''List'' 4 (int i))) [0..<500])
       @ [?s]) = [?s, ?s]"
    by simp
  then have twice: "length (filter (\<lambda>m. m = ?s) ?after) = 2"
    by (simp only: metrics_steady filter_sort length_sort) simp
  have "\<not> distinct ?after"
    by (simp only: metrics_steady distinct_sort) simp
  then have "?after \<noteq> retainedBySpec (map (recorded ''perf_0_abc'') steady)"
    using distinct_retainedBySpec [of "map (recorded ''perf_0_abc'') steady"] by auto
  with len twice show ?thesis
    by (simp add: distinct_retainedBySpec)
qed

subsection \<open>C3: anomaly retention\<close>

text \<open>
  C3 (anomaly retention), amended. When a call of \<open>logRender\<close> triggers the cleanup and
  the cleanup discards a slow metric, no metric that remains in the store has a
  strictly older timestamp than the discarded one. This holds for every remaining
  metric, slow or not, and whatever the number of slow metrics.
\<close>

theorem eviction_discards_oldest:
  assumes "maxMetrics \<le> length (metrics this)"
    and "isSlowRender a"
    and "a \<in> set (metrics this @ [recorded (sessionId this) c])"
    and "a \<notin> set (metrics (logRender (callEnv c) (argComponentName c) (argRenderTime c)
                               (argPropsHash c) this))"
    and "x \<in> set (metrics (logRender (callEnv c) (argComponentName c) (argRenderTime c)
                               (argPropsHash c) this))"
  shows "\<not> timestamp x < timestamp a"
  using assms cleanup_discards_oldest [of a "metrics this @ [recorded (sessionId this) c]" x]
  by (simp add: metrics_logRender_full del: set_append)

text \<open>
  The theorem on the run with the spaced clock: the store holds 500 metrics, 151 of
  them slow; the 501st call discards the oldest slow metric, and the quick metric of
  call 151 remains and is not older.
\<close>

theorem eviction_discards_oldest_witness:
  "maxMetrics \<le> length (metrics (filled spaced)) \<and>
   150 < length (filter isSlowRender (metrics (filled spaced))) \<and>
   isSlowRender (recorded ''perf_0_abc'' (slowCall spaced 0)) \<and>
   recorded ''perf_0_abc'' (slowCall spaced 0) \<in> set (metrics (filled spaced)) \<and>
   recorded ''perf_0_abc'' (slowCall spaced 0)
     \<notin> set (metrics (logRender (callEnv (quickCall spaced 500))
                        (argComponentName (quickCall spaced 500))
                        (argRenderTime (quickCall spaced 500))
                        (argPropsHash (quickCall spaced 500)) (filled spaced))) \<and>
   recorded ''perf_0_abc'' (quickCall spaced 151)
     \<in> set (metrics (logRender (callEnv (quickCall spaced 500))
                        (argComponentName (quickCall spaced 500))
                        (argRenderTime (quickCall spaced 500))
                        (argPropsHash (quickCall spaced 500)) (filled spaced))) \<and>
   \<not> timestamp (recorded ''perf_0_abc'' (quickCall spaced 151))
       < timestamp (recorded ''perf_0_abc'' (slowCall spaced 0))"
proof -
  have clock: "\<forall>i < 501. spaced 0 \<le> spaced i"
    by (simp add: spaced_def)
  have full: "maxMetrics \<le> length (metrics (filled spaced))"
    using filled_counts [of spaced] by (simp add: maxMetrics_def)
  have slow: "isSlowRender (recorded ''perf_0_abc'' (slowCall spaced 0))"
    by simp
  have stored: "recorded ''perf_0_abc'' (slowCall spaced 0)
      \<in> set (metrics (filled spaced) @ [recorded (sessionId (filled spaced)) (quickCall spaced 500)])"
    using oldest_slow_stored [of spaced] by simp
  have gone: "recorded ''perf_0_abc'' (slowCall spaced 0)
     \<notin> set (metrics (logRender (callEnv (quickCall spaced 500))
                        (argComponentName (quickCall spaced 500))
                        (argRenderTime (quickCall spaced 500))
                        (argPropsHash (quickCall spaced 500)) (filled spaced)))"
    using oldest_slow_discarded [OF clock] by (simp add: logRender_filled)
  have kept: "recorded ''perf_0_abc'' (quickCall spaced 151)
     \<in> set (metrics (logRender (callEnv (quickCall spaced 500))
                        (argComponentName (quickCall spaced 500))
                        (argRenderTime (quickCall spaced 500))
                        (argPropsHash (quickCall spaced 500)) (filled spaced)))"
    using quick_survives [OF clock] by (simp add: logRender_filled)
  show ?thesis
    using eviction_discards_oldest [OF full slow stored gone kept]
      full slow gone kept filled_counts [of spaced] oldest_slow_stored [of spaced]
    by simp
qed

text \<open>
  C3 as stated, with ``equal to or older'', fails. On the run with the tied clock the
  store holds 500 metrics, 151 of them slow, all with the same timestamp. The stable
  sort leaves the slow metrics in front, the cut to 500 discards the first of them, and
  every quick metric, of equal timestamp, remains.
\<close>

theorem eviction_tie_discards_slow:
  "length (metrics (filled tied)) = 500 \<and>
   length (filter isSlowRender (metrics (filled tied))) = 151 \<and>
   isSlowRender (recorded ''perf_0_abc'' (slowCall tied 0)) \<and>
   recorded ''perf_0_abc'' (slowCall tied 0) \<in> set (metrics (filled tied)) \<and>
   recorded ''perf_0_abc'' (slowCall tied 0)
     \<notin> set (metrics (logRender (callEnv (quickCall tied 500))
                        (argComponentName (quickCall tied 500)) (argRenderTime (quickCall tied 500))
                        (argPropsHash (quickCall tied 500)) (filled tied))) \<and>
   \<not> isSlowRender (recorded ''perf_0_abc'' (quickCall tied 151)) \<and>
   recorded ''perf_0_abc'' (quickCall tied 151)
     \<in> set (metrics (logRender (callEnv (quickCall tied 500))
                        (argComponentName (quickCall tied 500)) (argRenderTime (quickCall tied 500))
                        (argPropsHash (quickCall tied 500)) (filled tied))) \<and>
   timestamp (recorded ''perf_0_abc'' (quickCall tied 151))
     = timestamp (recorded ''perf_0_abc'' (slowCall tied 0))"
proof -
  have clock: "\<forall>i < 501. tied 0 \<le> tied i"
    by (simp add: tied_def)
  have same: "tied 151 = tied 0"
    by (simp add: tied_def)
  show ?thesis
    using filled_counts [of tied] oldest_slow_stored [of tied]
      oldest_slow_discarded [OF clock] quick_survives [OF clock]
    by (simp add: logRender_filled same)
qed

subsection \<open>C4: average\<close>


subsection \<open>C5: memory trend\<close>



subsection \<open>C6: hotspots\<close>




subsection \<open>C7: recommendations\<close>



subsection \<open>C8: export\<close>



subsection \<open>C9: clear\<close>

text \<open>
  C9 (clear). After \<open>clear\<close> both queries return the empty list, \<open>getInsights\<close> counts
  0 renders, the memory history is empty and the baseline is unset; the next memory
  reading becomes the baseline; the session id is the one before \<open>clear\<close>; and a second
  \<open>clear\<close> changes nothing.
\<close>

theorem clear_resets:
  "getMetrics (clear this) = [] \<and>
   getComponentMetrics name (clear this) = [] \<and>
   totalRenders (getInsights (clear this)) = 0 \<and>
   memoryHistory (clear this) = [] \<and>
   memoryBaseline (clear this) = None \<and>
   memoryBaseline (memoryTick u t (clear this)) = Some u \<and>
   sessionId (clear this) = sessionId this \<and>
   clear (clear this) = clear this"
  by (simp add: clear_def getMetrics_def getComponentMetrics_def totalRenders_getInsights
      memoryTick_def Let_def falsy_def)

subsection \<open>C10: memory baseline\<close>

text \<open>
  C10 (baseline set once). The sampler tests \<open>!this.memoryBaseline\<close>, which also holds
  for a baseline of 0. After a first reading of 0 bytes the baseline is 0, and the
  second reading, 2048 bytes, replaces it.
\<close>

theorem memoryBaseline_overwritten_after_zero:
  "memoryBaseline (memoryTicks (newMonitor ''perf_0_abc'') [(0, 10000)]) = Some 0 \<and>
   memoryBaseline (memoryTicks (newMonitor ''perf_0_abc'') [(0, 10000), (2048, 20000)]) = Some 2048"
  by (simp add: memoryTicks_def memoryBaseline_memoryTick falsy_def newMonitor_def)

end
